theory Spec2Isabelle
  imports Main "HOL-Library.Word"
begin

section \<open>Snake of Time: the simulation core of snake.py\<close>

text \<open>
  The embedding covers the classes \<^verbatim>\<open>Snake\<close> and \<^verbatim>\<open>GameSession\<close> and the event loop
  of \<^verbatim>\<open>Game.run\<close>. Objects become records and every method takes the object and
  returns the updated one. A raised exception is the \<open>Inl\<close> branch of a sum.

  What the program reads from outside is an argument of the model, the record \<open>Env\<close>:
  \<^item> \<^verbatim>\<open>pygame.time.get_ticks()\<close>: the clock values of a tick (\<open>ticks1\<close> is read by
    \<^verbatim>\<open>is_full_reversed\<close>, \<open>ticks2\<close> by \<^verbatim>\<open>_move_backward\<close>);
  \<^item> \<^verbatim>\<open>pygame.key.get_pressed()[K_r]\<close>: the flag \<open>pressed_r\<close>;
  \<^item> \<^verbatim>\<open>random.randrange\<close>: two raw draws \<open>rnd_left\<close> and \<open>rnd_top\<close>, reduced
    into the requested range;
  \<^item> whether the three sound files load: \<open>sounds_load\<close>;
  \<^item> what the library does with numbers that a \<^verbatim>\<open>pygame.Rect\<close> cannot hold:
    \<open>start_unmodelled\<close> and \<open>food_unmodelled\<close>, see below.
  Sound playback changes no field of the session and is left out.

  A \<^verbatim>\<open>pygame.Rect\<close> keeps its four fields as 32-bit C integers, and its arithmetic
  wraps around. The fields are words of 32 bits here, read as Python integers by
  \<open>sint\<close>. Python's own integers are unbounded and are \<open>int\<close>. Names keep those of the
  source without the leading underscore.
\<close>

subsection \<open>Errors, directions, rectangles\<close>

datatype error = IndexError | ValueError | OverflowError | TypeError | SoundError

datatype Direction = UP | DOWN | LEFT | RIGHT

fun Direction_value :: "Direction \<Rightarrow> int \<times> int" where
  "Direction_value UP = (0, -1)"
| "Direction_value DOWN = (0, 1)"
| "Direction_value LEFT = (-1, 0)"
| "Direction_value RIGHT = (1, 0)"

type_synonym c_int = "32 word"

text \<open>The Python integers that a C integer of 32 bits holds.\<close>

definition in_c_int :: "int \<Rightarrow> bool" where
  "in_c_int v = (- 2147483648 \<le> v \<and> v < 2147483648)"

text \<open>
  \<^verbatim>\<open>pygame.Rect\<close> belongs to the pygame library. The fields are \<open>left\<close> (also
  called \<open>x\<close>), \<open>top\<close> (\<open>y\<close>), \<open>width\<close> and \<open>height\<close>; \<open>right\<close>, \<open>bottom\<close> and
  \<open>center\<close> are computed from them in C arithmetic and handed to Python as integers.
  \<open>mk_Rect\<close> is the constructor on values that are C integers already;
  \<open>move_ip\<close> takes Python integers, which the library casts.
\<close>

record Rect =
  rleft :: c_int
  rtop :: c_int
  rwidth :: c_int
  rheight :: c_int

definition mk_Rect :: "c_int \<Rightarrow> c_int \<Rightarrow> c_int \<Rightarrow> c_int \<Rightarrow> Rect" where
  "mk_Rect l t w h = \<lparr>rleft = l, rtop = t, rwidth = w, rheight = h\<rparr>"

definition rright :: "Rect \<Rightarrow> int" where
  "rright r = sint (rleft r + rwidth r)"

definition rbottom :: "Rect \<Rightarrow> int" where
  "rbottom r = sint (rtop r + rheight r)"

text \<open>The division of C, which rounds towards zero, by two.\<close>

definition c_half :: "c_int \<Rightarrow> c_int" where
  "c_half w = word_of_int (if sint w < 0 then - ((- sint w) div 2) else sint w div 2)"

definition rcenter :: "Rect \<Rightarrow> int \<times> int" where
  "rcenter r = (sint (rleft r + c_half (rwidth r)), sint (rtop r + c_half (rheight r)))"

definition rpos :: "Rect \<Rightarrow> c_int \<times> c_int" where
  "rpos r = (rleft r, rtop r)"

definition move_ip :: "Rect \<Rightarrow> int \<Rightarrow> int \<Rightarrow> Rect" where
  "move_ip r dx dy = r\<lparr>rleft := rleft r + word_of_int dx, rtop := rtop r + word_of_int dy\<rparr>"

text \<open>
  \<^verbatim>\<open>Rect.colliderect\<close>: two rectangles overlap when their interiors meet; a
  rectangle of width or height zero overlaps nothing.
\<close>

definition colliderect :: "Rect \<Rightarrow> Rect \<Rightarrow> bool" where
  "colliderect a b =
     (if rwidth a = 0 \<or> rheight a = 0 \<or> rwidth b = 0 \<or> rheight b = 0 then False
      else min (sint (rleft a)) (sint (rleft a + rwidth a))
             < max (sint (rleft b)) (sint (rleft b + rwidth b))
         \<and> min (sint (rtop a)) (sint (rtop a + rheight a))
             < max (sint (rtop b)) (sint (rtop b + rheight b))
         \<and> max (sint (rleft a)) (sint (rleft a + rwidth a))
             > min (sint (rleft b)) (sint (rleft b + rwidth b))
         \<and> max (sint (rtop a)) (sint (rtop a + rheight a))
             > min (sint (rtop b)) (sint (rtop b + rheight b)))"

record GameArea =
  aleft :: int
  atop :: int
  awidth :: int
  aheight :: int

text \<open>
  \<^verbatim>\<open>GameLog\<close>; its field \<^verbatim>\<open>food\<close> is \<open>log_food\<close> here. The positions of a log are
  coordinates read from rectangles and go back into rectangles; they are kept in
  their 32-bit form.
\<close>

record GameLog =
  snake_direction :: Direction
  snake_parts :: "(c_int \<times> c_int) list"
  log_food :: "c_int \<times> c_int"

subsection \<open>class Snake\<close>

definition PART_SIZE :: int where
  "PART_SIZE = 15"

record Snake =
  direction :: Direction
  parts :: "Rect list"

definition head :: "Snake \<Rightarrow> error + Rect" where
  "head s = (case parts s of [] \<Rightarrow> Inl IndexError | p # _ \<Rightarrow> Inr p)"

definition tail :: "Snake \<Rightarrow> Rect list" where
  "tail s = drop 1 (parts s)"

definition increase :: "Snake \<Rightarrow> error + Snake" where
  "increase s =
     (if parts s = [] then Inl IndexError
      else let part = last (parts s);
               size = word_of_int PART_SIZE;
               new_part = mk_Rect (rleft part) (rtop part) size size
           in Inr (s\<lparr>parts := parts s @ [new_part]\<rparr>))"

fun increase_times :: "nat \<Rightarrow> Snake \<Rightarrow> error + Snake" where
  "increase_times 0 s = Inr s"
| "increase_times (Suc n) s =
     (case increase s of Inl e \<Rightarrow> Inl e | Inr s' \<Rightarrow> increase_times n s')"

text \<open>
  \<open>start_x\<close> and \<open>start_y\<close> are the values that the rectangle of the head has stored.
\<close>

definition Snake_init :: "c_int \<Rightarrow> c_int \<Rightarrow> nat \<Rightarrow> error + Snake" where
  "Snake_init start_x start_y tail_length =
     increase_times tail_length
       \<lparr>direction = LEFT,
        parts = [mk_Rect start_x start_y (word_of_int PART_SIZE) (word_of_int PART_SIZE)]\<rparr>"

definition has_collisions :: "Snake \<Rightarrow> GameArea \<Rightarrow> error + bool" where
  "has_collisions s game_are =
     (case head s of
        Inl e \<Rightarrow> Inl e
      | Inr h \<Rightarrow>
          Inr (sint (rleft h) < aleft game_are
             \<or> rright h > aleft game_are + awidth game_are
             \<or> sint (rtop h) < atop game_are
             \<or> rbottom h > atop game_are + aheight game_are
             \<or> list_ex (colliderect h) (tail s)))"

text \<open>
  The loop of \<^verbatim>\<open>move\<close>: \<open>i\<close> runs from \<open>len(tail)\<close> down to \<open>1\<close> and part \<open>i\<close>
  takes \<open>x\<close> and \<open>y\<close> of part \<open>i - 1\<close>. Then the head moves by the vector of the
  direction times its width and height, in the arithmetic of the rectangle.
\<close>

fun move_loop :: "Rect list \<Rightarrow> nat \<Rightarrow> Rect list" where
  "move_loop ps 0 = ps"
| "move_loop ps (Suc i) =
     move_loop (ps[Suc i := (ps ! Suc i)\<lparr>rleft := rleft (ps ! i), rtop := rtop (ps ! i)\<rparr>]) i"

definition move :: "Snake \<Rightarrow> error + Snake" where
  "move s =
     (case move_loop (parts s) (length (tail s)) of
        [] \<Rightarrow> Inl IndexError
      | h # rest \<Rightarrow>
          (case Direction_value (direction s) of
             (x_dir, y_dir) \<Rightarrow>
               Inr (s\<lparr>parts := move_ip h (x_dir * sint (rwidth h)) (y_dir * sint (rheight h))
                                # rest\<rparr>)))"

definition turn_up :: "Snake \<Rightarrow> Snake" where
  "turn_up s = (if direction s \<noteq> DOWN then s\<lparr>direction := UP\<rparr> else s)"

definition turn_down :: "Snake \<Rightarrow> Snake" where
  "turn_down s = (if direction s \<noteq> UP then s\<lparr>direction := DOWN\<rparr> else s)"

definition turn_left :: "Snake \<Rightarrow> Snake" where
  "turn_left s = (if direction s \<noteq> RIGHT then s\<lparr>direction := LEFT\<rparr> else s)"

definition turn_right :: "Snake \<Rightarrow> Snake" where
  "turn_right s = (if direction s \<noteq> LEFT then s\<lparr>direction := RIGHT\<rparr> else s)"

subsection \<open>class GameSession\<close>

definition LOG_LIMIT :: nat where
  "LOG_LIMIT = 25"

definition FOOD_SIZE :: int where
  "FOOD_SIZE = 20"

definition SNAKE_START_LENGTH :: nat where
  "SNAKE_START_LENGTH = 3"

text \<open>The key codes of pygame 2 (those of SDL2); the model uses that they differ.\<close>

definition K_UP :: int where
  "K_UP = 1073741906"

definition K_DOWN :: int where
  "K_DOWN = 1073741905"

definition K_LEFT :: int where
  "K_LEFT = 1073741904"

definition K_RIGHT :: int where
  "K_RIGHT = 1073741903"

definition K_RETURN :: int where
  "K_RETURN = 13"

text \<open>
  The readings of one call. \<open>start_unmodelled\<close> is what the float arithmetic of the
  start position and its conversion by \<^verbatim>\<open>pygame.Rect\<close> deliver where they are not
  exact, \<open>food_unmodelled\<close> what \<^verbatim>\<open>pygame.Rect\<close> makes of a drawn position that is no
  C integer: an exception, or the coordinates that end up in the rectangle.
\<close>

record Env =
  pressed_r :: bool
  ticks1 :: int
  ticks2 :: int
  rnd_left :: int
  rnd_top :: int
  sounds_load :: bool
  start_unmodelled :: "error + c_int \<times> c_int"
  food_unmodelled :: "error + c_int \<times> c_int"

text \<open>
  Line 118 assigns \<^verbatim>\<open>pressed_keys[K_r] and self.logs and not self.is_full_reversed\<close>
  to \<^verbatim>\<open>is_reversed\<close>. The value of \<^verbatim>\<open>and\<close> is one of its operands: a boolean, or,
  with the key held and an empty history, the deque \<^verbatim>\<open>self.logs\<close> itself, which is
  true as soon as it has an entry.
\<close>

datatype reversed_value = Flag bool | TheLogs

record GameSession =
  area :: GameArea
  frame_time :: int
  is_running :: bool
  logs :: "GameLog list"
  is_reversed :: reversed_value
  last_full_revert :: int
  is_predictable_future :: bool
  next_foods :: "Rect list"
  snake :: Snake
  food :: Rect

text \<open>The truth value of \<^verbatim>\<open>is_reversed\<close>, as an \<^verbatim>\<open>if\<close> reads it.\<close>

definition reversed_now :: "GameSession \<Rightarrow> bool" where
  "reversed_now g = (case is_reversed g of Flag b \<Rightarrow> b | TheLogs \<Rightarrow> logs g \<noteq> [])"

text \<open>
  \<^verbatim>\<open>randrange(start, stop)\<close> raises \<^verbatim>\<open>ValueError\<close> on an empty range and
  returns a value of \<open>start..<stop\<close> otherwise; \<open>r\<close> is the raw draw.
\<close>

definition randrange :: "int \<Rightarrow> int \<Rightarrow> int \<Rightarrow> error + int" where
  "randrange start stop r =
     (if stop \<le> start then Inl ValueError else Inr (start + r mod (stop - start)))"

text \<open>
  \<^verbatim>\<open>generate_food\<close> reads \<^verbatim>\<open>area\<close>, \<^verbatim>\<open>_is_predictable_future\<close> and \<^verbatim>\<open>_next_foods\<close>
  of the session and may pop \<^verbatim>\<open>_next_foods\<close>. The constructor calls it before the
  field \<^verbatim>\<open>food\<close> exists, so the model takes the three fields and returns the food
  with the queue that is left. The rectangle of a drawn position holds that position
  when it is a C integer; otherwise the library decides.
\<close>

definition generate_food ::
  "GameArea \<Rightarrow> bool \<Rightarrow> Rect list \<Rightarrow> Env \<Rightarrow> error + (Rect \<times> Rect list)" where
  "generate_food a predictable nexts env =
     (if predictable \<and> nexts \<noteq> [] then Inr (last nexts, butlast nexts)
      else
        (case randrange (aleft a) (aleft a + awidth a - (FOOD_SIZE * 2)) (rnd_left env) of
           Inl e \<Rightarrow> Inl e
         | Inr rand_left \<Rightarrow>
             (case randrange (atop a) (atop a + aheight a - (FOOD_SIZE * 2)) (rnd_top env) of
                Inl e \<Rightarrow> Inl e
              | Inr rand_top \<Rightarrow>
                  (let size = word_of_int FOOD_SIZE in
                   if in_c_int rand_left \<and> in_c_int rand_top
                   then Inr (mk_Rect (word_of_int rand_left) (word_of_int rand_top) size size,
                             nexts)
                   else
                     (case food_unmodelled env of
                        Inl e \<Rightarrow> Inl e
                      | Inr (l, t) \<Rightarrow> Inr (mk_Rect l t size size, nexts))))))"

text \<open>
  The start position. \<^verbatim>\<open>left + ((width / 2) // PART_SIZE) * PART_SIZE\<close> is float
  arithmetic. Where \<open>left\<close>, \<open>width\<close> and the result are C integers, every step of it is
  exact, the float has the integer value \<open>left + (width div 30) * 15\<close> and
  \<^verbatim>\<open>pygame.Rect\<close> stores that value. Elsewhere rounding, an \<^verbatim>\<open>OverflowError\<close> or the
  cast of the library decide, which the model takes from \<open>start_unmodelled\<close>.
\<close>

definition float_exact :: "int \<Rightarrow> int \<Rightarrow> bool" where
  "float_exact origin extent =
     (in_c_int origin \<and> in_c_int extent
      \<and> in_c_int (origin + (extent div (2 * PART_SIZE)) * PART_SIZE))"

definition start_position :: "GameArea \<Rightarrow> Env \<Rightarrow> error + c_int \<times> c_int" where
  "start_position game_area env =
     (let start_left = aleft game_area + (awidth game_area div (2 * PART_SIZE)) * PART_SIZE;
          start_top = atop game_area + (aheight game_area div (2 * PART_SIZE)) * PART_SIZE
      in if float_exact (aleft game_area) (awidth game_area)
            \<and> float_exact (atop game_area) (aheight game_area)
         then Inr (word_of_int start_left, word_of_int start_top)
         else start_unmodelled env)"

text \<open>
  The constructor: the fields, the snake at the start position, the first food, and
  at the end the three sound files, whose loading can fail.
\<close>

definition GameSession_init :: "GameArea \<Rightarrow> int \<Rightarrow> bool \<Rightarrow> Env \<Rightarrow> error + GameSession" where
  "GameSession_init game_area ft predictable env =
     (case start_position game_area env of
        Inl e \<Rightarrow> Inl e
      | Inr (start_left, start_top) \<Rightarrow>
          (case Snake_init start_left start_top (SNAKE_START_LENGTH - 1) of
             Inl e \<Rightarrow> Inl e
           | Inr sn \<Rightarrow>
               (case generate_food game_area predictable [] env of
                  Inl e \<Rightarrow> Inl e
                | Inr (f, nexts) \<Rightarrow>
                    if sounds_load env then
                      Inr \<lparr>area = game_area, frame_time = ft, is_running = True, logs = [],
                           is_reversed = Flag False, last_full_revert = ticks1 env,
                           is_predictable_future = predictable, next_foods = nexts,
                           snake = sn, food = f\<rparr>
                    else Inl SoundError)))"

definition handle_keypress :: "GameSession \<Rightarrow> int \<Rightarrow> GameSession" where
  "handle_keypress g key =
     (if key = K_UP then g\<lparr>snake := turn_up (snake g)\<rparr>
      else if key = K_DOWN then g\<lparr>snake := turn_down (snake g)\<rparr>
      else if key = K_LEFT then g\<lparr>snake := turn_left (snake g)\<rparr>
      else if key = K_RIGHT then g\<lparr>snake := turn_right (snake g)\<rparr>
      else g)"

definition is_full_reversed :: "GameSession \<Rightarrow> int \<Rightarrow> bool" where
  "is_full_reversed g now = (now - last_full_revert g \<le> int LOG_LIMIT * frame_time g)"


text \<open>
  \<^verbatim>\<open>deque(maxlen=LOG_LIMIT).append\<close>: the entry goes to the right end, and the
  leftmost one is dropped when the deque has grown beyond its limit.
\<close>

definition deque_append :: "'a list \<Rightarrow> 'a \<Rightarrow> 'a list" where
  "deque_append xs x = (let ys = xs @ [x] in if length ys > LOG_LIMIT then tl ys else ys)"

definition snapshot :: "GameSession \<Rightarrow> GameLog" where
  "snapshot g =
     \<lparr>snake_direction = direction (snake g),
      snake_parts = map (\<lambda>part. (rleft part, rtop part)) (parts (snake g)),
      log_food = (rleft (food g), rtop (food g))\<rparr>"

definition add_log :: "GameSession \<Rightarrow> GameSession" where
  "add_log g = g\<lparr>logs := deque_append (logs g) (snapshot g)\<rparr>"

definition move_forward :: "GameSession \<Rightarrow> Env \<Rightarrow> error + GameSession" where
  "move_forward g env =
     (case move (snake g) of
        Inl e \<Rightarrow> Inl e
      | Inr sn \<Rightarrow>
          (case has_collisions sn (area g) of
             Inl e \<Rightarrow> Inl e
           | Inr c \<Rightarrow>
               (let g1 = g\<lparr>snake := sn, is_running := \<not> c\<rparr> in
                if \<not> is_running g1 then Inr (add_log g1)
                else
                  (case head sn of
                     Inl e \<Rightarrow> Inl e
                   | Inr h \<Rightarrow>
                       if colliderect h (food g1) then
                         (case increase sn of
                            Inl e \<Rightarrow> Inl e
                          | Inr sn2 \<Rightarrow>
                              (case generate_food (area g1) (is_predictable_future g1)
                                      (next_foods g1) env of
                                 Inl e \<Rightarrow> Inl e
                               | Inr (f, nexts) \<Rightarrow>
                                   Inr (add_log (g1\<lparr>snake := sn2, next_foods := nexts,
                                                    food := f\<rparr>))))
                       else Inr (add_log g1)))))"

definition move_backward :: "GameSession \<Rightarrow> int \<Rightarrow> error + GameSession" where
  "move_backward g now =
     (if logs g = [] then Inl IndexError
      else
        (let last_log = last (logs g);
             g1 = g\<lparr>logs := butlast (logs g)\<rparr>;
             g2 = (if logs g1 = [] then g1\<lparr>last_full_revert := now\<rparr> else g1);
             g3 = g2\<lparr>snake := \<lparr>direction = snake_direction last_log,
                                parts = map (\<lambda>(l, t). mk_Rect l t (word_of_int PART_SIZE)
                                                       (word_of_int PART_SIZE))
                                          (snake_parts last_log)\<rparr>\<rparr>;
             fd = mk_Rect (fst (log_food last_log)) (snd (log_food last_log))
                    (word_of_int FOOD_SIZE) (word_of_int FOOD_SIZE);
             g4 = (if is_predictable_future g3 \<and> rcenter fd \<noteq> rcenter (food g3)
                   then g3\<lparr>next_foods := next_foods g3 @ [food g3]\<rparr> else g3)
         in Inr (g4\<lparr>food := fd\<rparr>)))"

text \<open>The value that line 118 stores in \<^verbatim>\<open>is_reversed\<close>.\<close>

definition reversed_of :: "GameSession \<Rightarrow> Env \<Rightarrow> reversed_value" where
  "reversed_of g env =
     (if \<not> pressed_r env then Flag False
      else if logs g = [] then TheLogs
      else Flag (\<not> is_full_reversed g (ticks1 env)))"

definition move_snake :: "GameSession \<Rightarrow> Env \<Rightarrow> error + GameSession" where
  "move_snake g env =
     (let g1 = g\<lparr>is_reversed := reversed_of g env\<rparr>
      in if reversed_now g1 then move_backward g1 (ticks2 env) else move_forward g1 env)"

subsection \<open>Notions of the specification and concrete inputs\<close>

text \<open>
  Two directions are opposite when their vectors are the negation of each other.
\<close>

definition opposite :: "Direction \<Rightarrow> Direction \<Rightarrow> bool" where
  "opposite a b = (Direction_value a = (- fst (Direction_value b), - snd (Direction_value b)))"

definition snake3 :: Snake where
  "snake3 = \<lparr>direction = LEFT,
             parts = [mk_Rect 390 300 15 15, mk_Rect 405 300 15 15, mk_Rect 420 300 15 15]\<rparr>"

definition area0 :: GameArea where
  "area0 = \<lparr>aleft = 0, atop = 0, awidth = 800, aheight = 600\<rparr>"

definition env0 :: Env where
  "env0 = \<lparr>pressed_r = False, ticks1 = 0, ticks2 = 0, rnd_left = 355, rnd_top = 295,
       sounds_load = True, start_unmodelled = Inl OverflowError,
       food_unmodelled = Inl TypeError\<rparr>"

text \<open>The session that the constructor builds from \<open>area0\<close> and \<open>env0\<close>.\<close>

definition session0 :: GameSession where
  "session0 =
     \<lparr>area = area0, frame_time = 40, is_running = True, logs = [], is_reversed = Flag False,
      last_full_revert = 0, is_predictable_future = True, next_foods = [],
      snake = \<lparr>direction = LEFT,
                parts = [mk_Rect 390 300 15 15, mk_Rect 390 300 15 15, mk_Rect 390 300 15 15]\<rparr>,
      food = mk_Rect 355 295 20 20\<rparr>"

subsection \<open>Runs of session operations\<close>

definition press_keys :: "GameSession \<Rightarrow> int list \<Rightarrow> GameSession" where
  "press_keys g ks = foldl handle_keypress g ks"

text \<open>
  A step is the keys pressed since the last tick, followed by the tick. \<open>play\<close>
  ticks with \<open>move_snake\<close>, \<open>forward_ticks\<close> with \<open>move_forward\<close> and
  \<open>backward_ticks\<close> with \<open>move_backward\<close>; each stops at the first exception.
\<close>

fun play :: "GameSession \<Rightarrow> (int list \<times> Env) list \<Rightarrow> error + GameSession" where
  "play g [] = Inr g"
| "play g ((ks, env) # rest) =
     (case move_snake (press_keys g ks) env of Inl e \<Rightarrow> Inl e | Inr g' \<Rightarrow> play g' rest)"

fun forward_ticks :: "GameSession \<Rightarrow> (int list \<times> Env) list \<Rightarrow> error + GameSession" where
  "forward_ticks g [] = Inr g"
| "forward_ticks g ((ks, env) # rest) =
     (case move_forward (press_keys g ks) env of
        Inl e \<Rightarrow> Inl e
      | Inr g' \<Rightarrow> forward_ticks g' rest)"

fun backward_ticks :: "GameSession \<Rightarrow> int list \<Rightarrow> error + GameSession" where
  "backward_ticks g [] = Inr g"
| "backward_ticks g (now # rest) =
     (case move_backward g now of Inl e \<Rightarrow> Inl e | Inr g' \<Rightarrow> backward_ticks g' rest)"

text \<open>
  \<open>forward_play\<close> is \<open>play\<close> with every tick taking the forward branch of
  \<open>move_snake\<close>: the tick stores \<open>is_reversed\<close> and steps forward.
\<close>

fun forward_play :: "GameSession \<Rightarrow> (int list \<times> Env) list \<Rightarrow> error + GameSession" where
  "forward_play g [] = Inr g"
| "forward_play g ((ks, env) # rest) =
     (case move_forward ((press_keys g ks)\<lparr>is_reversed := reversed_of (press_keys g ks) env\<rparr>)
             env of
        Inl e \<Rightarrow> Inl e
      | Inr g' \<Rightarrow> forward_play g' rest)"

text \<open>
  A small area: the session built on it reaches the left border on its third tick
  without meeting the food.
\<close>

definition area1 :: GameArea where
  "area1 = \<lparr>aleft = 0, atop = 0, awidth = 60, aheight = 60\<rparr>"

definition env1 :: Env where
  "env1 = \<lparr>pressed_r = False, ticks1 = 0, ticks2 = 0, rnd_left = 0, rnd_top = 0,
       sounds_load = True, start_unmodelled = Inl OverflowError,
       food_unmodelled = Inl TypeError\<rparr>"

definition env_rewind :: Env where
  "env_rewind = \<lparr>pressed_r = True, ticks1 = 1000, ticks2 = 1000, rnd_left = 0, rnd_top = 0,
       sounds_load = True, start_unmodelled = Inl OverflowError,
       food_unmodelled = Inl TypeError\<rparr>"

definition session1 :: GameSession where
  "session1 =
     \<lparr>area = area1, frame_time = 40, is_running = True, logs = [], is_reversed = Flag False,
      last_full_revert = 0, is_predictable_future = False, next_foods = [],
      snake = \<lparr>direction = LEFT,
                parts = [mk_Rect 30 30 15 15, mk_Rect 30 30 15 15, mk_Rect 30 30 15 15]\<rparr>,
      food = mk_Rect 0 0 20 20\<rparr>"

text \<open>\<open>session1\<close> after two forward ticks, and after the third.\<close>

definition session1_at_wall :: GameSession where
  "session1_at_wall =
     \<lparr>area = area1, frame_time = 40, is_running = True,
      logs = [\<lparr>snake_direction = LEFT, snake_parts = [(15, 30), (30, 30), (30, 30)],
                log_food = (0, 0)\<rparr>,
              \<lparr>snake_direction = LEFT, snake_parts = [(0, 30), (15, 30), (30, 30)],
                log_food = (0, 0)\<rparr>],
      is_reversed = Flag False, last_full_revert = 0, is_predictable_future = False,
      next_foods = [],
      snake = \<lparr>direction = LEFT,
                parts = [mk_Rect 0 30 15 15, mk_Rect 15 30 15 15, mk_Rect 30 30 15 15]\<rparr>,
      food = mk_Rect 0 0 20 20\<rparr>"

definition session1_over :: GameSession where
  "session1_over =
     \<lparr>area = area1, frame_time = 40, is_running = False,
      logs = [\<lparr>snake_direction = LEFT, snake_parts = [(15, 30), (30, 30), (30, 30)],
                log_food = (0, 0)\<rparr>,
              \<lparr>snake_direction = LEFT, snake_parts = [(0, 30), (15, 30), (30, 30)],
                log_food = (0, 0)\<rparr>,
              \<lparr>snake_direction = LEFT, snake_parts = [(- 15, 30), (0, 30), (15, 30)],
                log_food = (0, 0)\<rparr>],
      is_reversed = Flag False, last_full_revert = 0, is_predictable_future = False,
      next_foods = [],
      snake = \<lparr>direction = LEFT,
                parts = [mk_Rect (- 15) 30 15 15, mk_Rect 0 30 15 15, mk_Rect 15 30 15 15]\<rparr>,
      food = mk_Rect 0 0 20 20\<rparr>"

text \<open>
  \<open>session0\<close> and \<open>session1\<close> after their first forward tick, and after a backward
  tick or two that pop the history down to nothing.
\<close>

definition session0_tick1 :: GameSession where
  "session0_tick1 =
     session0\<lparr>logs := [\<lparr>snake_direction = LEFT,
                          snake_parts = [(375, 300), (390, 300), (390, 300)],
                          log_food = (355, 295)\<rparr>],
              snake := \<lparr>direction = LEFT,
                        parts = [mk_Rect 375 300 15 15, mk_Rect 390 300 15 15,
                                 mk_Rect 390 300 15 15]\<rparr>\<rparr>"

definition session0_back :: GameSession where
  "session0_back = session0_tick1\<lparr>logs := [], last_full_revert := 5000\<rparr>"

definition session1_tick1 :: GameSession where
  "session1_tick1 =
     session1\<lparr>logs := [\<lparr>snake_direction = LEFT,
                          snake_parts = [(15, 30), (30, 30), (30, 30)],
                          log_food = (0, 0)\<rparr>],
              snake := \<lparr>direction = LEFT,
                        parts = [mk_Rect 15 30 15 15, mk_Rect 30 30 15 15,
                                 mk_Rect 30 30 15 15]\<rparr>\<rparr>"

definition session1_back :: GameSession where
  "session1_back = session1_tick1\<lparr>logs := [], last_full_revert := 5040\<rparr>"

subsection \<open>Eating, reachable sessions\<close>










subsection \<open>The event loop of Game.run\<close>

text \<open>
  One iteration of the \<^verbatim>\<open>while True\<close> loop handles the pending events and then,
  only if the session is running, calls \<^verbatim>\<open>move_snake\<close>. A \<^verbatim>\<open>QUIT\<close> event exits
  the process, \<^verbatim>\<open>K_RETURN\<close> on a session that is over returns to the menu, any other
  key goes to \<^verbatim>\<open>handle_keypress\<close>. Drawing and the delay change nothing of the session.
  \<open>run_frames\<close> runs the loop on the events and readings of finitely many frames.
\<close>

datatype Event = QUIT | KEYDOWN int | OTHER

datatype run_state = Looping GameSession | Returned | Exited | Raised error

fun handle_events :: "GameSession \<Rightarrow> Event list \<Rightarrow> run_state" where
  "handle_events g [] = Looping g"
| "handle_events g (QUIT # evs) = Exited"
| "handle_events g (KEYDOWN k # evs) =
     (if k = K_RETURN \<and> \<not> is_running g then Returned
      else handle_events (handle_keypress g k) evs)"
| "handle_events g (OTHER # evs) = handle_events g evs"

definition run_frame :: "GameSession \<Rightarrow> Event list \<times> Env \<Rightarrow> run_state" where
  "run_frame g fr =
     (case handle_events g (fst fr) of
        Looping g1 \<Rightarrow>
          (if is_running g1 then
             (case move_snake g1 (snd fr) of Inl e \<Rightarrow> Raised e | Inr g2 \<Rightarrow> Looping g2)
           else Looping g1)
      | r \<Rightarrow> r)"

fun run_frames :: "GameSession \<Rightarrow> (Event list \<times> Env) list \<Rightarrow> run_state" where
  "run_frames g [] = Looping g"
| "run_frames g (fr # frs) =
     (case run_frame g fr of Looping g' \<Rightarrow> run_frames g' frs | r \<Rightarrow> r)"

text \<open>\<open>session1_over\<close> after a turn down, a tick, a turn right and a tick.\<close>

definition session1_revived :: GameSession where
  "session1_revived =
     session1_over\<lparr>is_running := True,
       logs := logs session1_over @
         [\<lparr>snake_direction = DOWN, snake_parts = [(- 15, 45), (- 15, 30), (0, 30)],
           log_food = (0, 0)\<rparr>,
          \<lparr>snake_direction = RIGHT, snake_parts = [(0, 45), (- 15, 45), (- 15, 30)],
           log_food = (0, 0)\<rparr>],
       snake := \<lparr>direction = RIGHT,
                 parts = [mk_Rect 0 45 15 15, mk_Rect (- 15) 45 15 15,
                          mk_Rect (- 15) 30 15 15]\<rparr>\<rparr>"

subsection \<open>Foods and runs without eating\<close>










text \<open>The Python integer that a C integer holds after \<open>v\<close> has been stored in it.\<close>

definition c_wrap :: "int \<Rightarrow> int" where
  "c_wrap v = sint (word_of_int v :: c_int)"

text \<open>A snake at the lower border of the C integers, before and after \<open>move\<close>.\<close>

definition snake_edge :: Snake where
  "snake_edge = \<lparr>direction = LEFT,
                 parts = [mk_Rect (- 2147483640) 0 15 15, mk_Rect (- 2147483640) 0 15 15,
                          mk_Rect (- 2147483640) 0 15 15]\<rparr>"

definition snake_edge_moved :: Snake where
  "snake_edge_moved = \<lparr>direction = LEFT,
                       parts = [mk_Rect 2147483641 0 15 15, mk_Rect (- 2147483640) 0 15 15,
                                mk_Rect (- 2147483640) 0 15 15]\<rparr>"

text \<open>
  An area whose four fields are at most \<open>2 ^ 30\<close> in absolute value. On it the start
  position is exact and every position that can be drawn is a C integer.
\<close>

definition small_area :: "GameArea \<Rightarrow> bool" where
  "small_area a =
     (\<bar>aleft a\<bar> \<le> 1073741824 \<and> \<bar>atop a\<bar> \<le> 1073741824
      \<and> \<bar>awidth a\<bar> \<le> 1073741824 \<and> \<bar>aheight a\<bar> \<le> 1073741824)"





section \<open>Properties\<close>

subsection \<open>Turning\<close>

lemma opposite_simps:
  "opposite a b =
     ((a = UP \<and> b = DOWN) \<or> (a = DOWN \<and> b = UP)
      \<or> (a = LEFT \<and> b = RIGHT) \<or> (a = RIGHT \<and> b = LEFT))"
  by (cases a; cases b; simp add: opposite_def)

text \<open>
  C7. Each of \<open>turn_up\<close>, \<open>turn_down\<close>, \<open>turn_left\<close>, \<open>turn_right\<close> leaves the
  direction as it is when the requested direction is the opposite of the current one,
  and sets the requested direction otherwise (the same or a perpendicular one). The
  parts are not touched.
\<close>

theorem turn_guard:
  "direction (turn_up s) = (if opposite UP (direction s) then direction s else UP)
   \<and> direction (turn_down s) = (if opposite DOWN (direction s) then direction s else DOWN)
   \<and> direction (turn_left s) = (if opposite LEFT (direction s) then direction s else LEFT)
   \<and> direction (turn_right s) = (if opposite RIGHT (direction s) then direction s else RIGHT)
   \<and> parts (turn_up s) = parts s \<and> parts (turn_down s) = parts s
   \<and> parts (turn_left s) = parts s \<and> parts (turn_right s) = parts s"
  by (simp add: opposite_simps turn_up_def turn_down_def turn_left_def turn_right_def)

theorem turn_guard_witness:
  "direction (turn_right snake3) = LEFT \<and> direction (turn_up snake3) = UP
   \<and> direction (turn_left snake3) = LEFT \<and> direction (turn_down snake3) = DOWN"
  using turn_guard [of snake3]
  by (simp add: opposite_simps snake3_def)

subsection \<open>Key presses\<close>

text \<open>
  C10. \<open>handle_keypress\<close> returns the session with at most the direction of the
  snake replaced: parts, food, history, deferred foods, \<open>is_running\<close> and every other
  field are those of the argument. A key that is none of the four arrow keys
  returns the session as it was.
\<close>

theorem handle_keypress_frame:
  "handle_keypress g key =
     g\<lparr>snake := (snake g)\<lparr>direction := direction (snake (handle_keypress g key))\<rparr>\<rparr>
   \<and> (key \<noteq> K_UP \<and> key \<noteq> K_DOWN \<and> key \<noteq> K_LEFT \<and> key \<noteq> K_RIGHT
        \<longrightarrow> handle_keypress g key = g)"
  by (simp add: handle_keypress_def turn_up_def turn_down_def turn_left_def turn_right_def)

theorem handle_keypress_frame_witness:
  "(32 \<noteq> K_UP \<and> 32 \<noteq> K_DOWN \<and> 32 \<noteq> K_LEFT \<and> 32 \<noteq> K_RIGHT)
   \<and> handle_keypress session0 32 = session0
   \<and> handle_keypress session0 K_UP = session0\<lparr>snake := (snake session0)\<lparr>direction := UP\<rparr>\<rparr>"
proof -
  have k: "32 \<noteq> K_UP \<and> 32 \<noteq> K_DOWN \<and> 32 \<noteq> K_LEFT \<and> 32 \<noteq> K_RIGHT"
    by (simp add: K_UP_def K_DOWN_def K_LEFT_def K_RIGHT_def)
  have d: "direction (snake (handle_keypress session0 K_UP)) = UP"
    by (simp add: handle_keypress_def turn_up_def session0_def)
  show ?thesis
    using k d handle_keypress_frame [of session0 32] handle_keypress_frame [of session0 K_UP]
    by simp
qed

subsection \<open>Moving the snake\<close>

lemma move_loop_length: "length (move_loop ps n) = length ps"
  by (induction n arbitrary: ps) simp_all

lemma move_loop_nth:
  "n < length ps \<Longrightarrow> i < length ps \<Longrightarrow>
   move_loop ps n ! i =
     (if 1 \<le> i \<and> i \<le> n
      then (ps ! i)\<lparr>rleft := rleft (ps ! (i - 1)), rtop := rtop (ps ! (i - 1))\<rparr>
      else ps ! i)"
proof (induction n arbitrary: ps)
  case 0
  then show ?case by simp
next
  case (Suc n)
  let ?qs = "ps[Suc n := (ps ! Suc n)\<lparr>rleft := rleft (ps ! n), rtop := rtop (ps ! n)\<rparr>]"
  have "move_loop ps (Suc n) ! i = move_loop ?qs n ! i" by simp
  also have "\<dots> = (if 1 \<le> i \<and> i \<le> n
      then (?qs ! i)\<lparr>rleft := rleft (?qs ! (i - 1)), rtop := rtop (?qs ! (i - 1))\<rparr>
      else ?qs ! i)"
    using Suc.prems by (intro Suc.IH) simp_all
  also have "\<dots> = (if 1 \<le> i \<and> i \<le> Suc n
      then (ps ! i)\<lparr>rleft := rleft (ps ! (i - 1)), rtop := rtop (ps ! (i - 1))\<rparr>
      else ps ! i)"
    using Suc.prems by (auto simp: nth_list_update)
  finally show ?case .
qed

lemma move_loop_hd:
  assumes "ps \<noteq> []" "n < length ps"
  shows "\<exists>qs. move_loop ps n = (ps ! 0) # qs"
proof -
  have "move_loop ps n \<noteq> []" using assms move_loop_length [of ps n] by auto
  then obtain q qs where q: "move_loop ps n = q # qs" by (cases "move_loop ps n") auto
  have "move_loop ps n ! 0 = ps ! 0" using assms by (simp add: move_loop_nth)
  with q show ?thesis by simp
qed

lemma move_Inr:
  assumes "parts s \<noteq> []"
  shows "move s = Inr (s\<lparr>parts :=
           move_ip (parts s ! 0)
             (fst (Direction_value (direction s)) * sint (rwidth (parts s ! 0)))
             (snd (Direction_value (direction s)) * sint (rheight (parts s ! 0)))
           # tl (move_loop (parts s) (length (parts s) - 1))\<rparr>)"
proof -
  have n: "length (parts s) - 1 < length (parts s)" using assms by (cases "parts s") auto
  obtain qs where qs: "move_loop (parts s) (length (parts s) - 1) = (parts s ! 0) # qs"
    using move_loop_hd [OF assms n] by blast
  show ?thesis
    using qs by (simp add: move_def tail_def split: prod.split)
qed

lemma move_Nil: "parts s = [] \<Longrightarrow> move s = Inl IndexError"
  by (simp add: move_def tail_def)

lemma sint_add_of_int:
  "sint ((a :: c_int) + word_of_int d) = c_wrap (sint a + d)"
  by (simp add: c_wrap_def)

lemma c_wrap_in_range: "in_c_int v \<Longrightarrow> c_wrap v = v"
  by (simp add: c_wrap_def in_c_int_def signed_of_int signed_take_bit_int_eq_self)

text \<open>
  C8 (amended). \<open>move\<close> runs its loop from the last part down to the second
  (\<open>move_loop\<close> counts down), and on a snake with at least one part it returns a snake
  of the same length in which part \<open>i\<close>, for \<open>i \<ge> 1\<close>, has the position that part
  \<open>i - 1\<close> had before the call (and its own size). The head is translated by the
  vector of the direction times its width and height in the 32-bit arithmetic of the
  rectangle: its new coordinate is the old one plus vector times size, wrapped into
  the C integers. For a head of size \<open>PART_SIZE\<close> whose translated coordinates are C
  integers this is the translation by vector times \<open>PART_SIZE\<close>.
\<close>

theorem move_follows_leader:
  assumes "parts s \<noteq> []"
  shows "\<exists>s'. move s = Inr s'
     \<and> direction s' = direction s
     \<and> length (parts s') = length (parts s)
     \<and> (\<forall>i. 1 \<le> i \<and> i < length (parts s) \<longrightarrow>
           rpos (parts s' ! i) = rpos (parts s ! (i - 1))
         \<and> rwidth (parts s' ! i) = rwidth (parts s ! i)
         \<and> rheight (parts s' ! i) = rheight (parts s ! i))
     \<and> parts s' ! 0 =
          move_ip (parts s ! 0)
            (fst (Direction_value (direction s)) * sint (rwidth (parts s ! 0)))
            (snd (Direction_value (direction s)) * sint (rheight (parts s ! 0)))
     \<and> sint (rleft (parts s' ! 0)) =
          c_wrap (sint (rleft (parts s ! 0))
                  + fst (Direction_value (direction s)) * sint (rwidth (parts s ! 0)))
     \<and> sint (rtop (parts s' ! 0)) =
          c_wrap (sint (rtop (parts s ! 0))
                  + snd (Direction_value (direction s)) * sint (rheight (parts s ! 0)))
     \<and> (sint (rwidth (parts s ! 0)) = PART_SIZE \<and> sint (rheight (parts s ! 0)) = PART_SIZE
        \<and> in_c_int (sint (rleft (parts s ! 0)) + fst (Direction_value (direction s)) * PART_SIZE)
        \<and> in_c_int (sint (rtop (parts s ! 0)) + snd (Direction_value (direction s)) * PART_SIZE)
        \<longrightarrow>
          sint (rleft (parts s' ! 0)) =
            sint (rleft (parts s ! 0)) + fst (Direction_value (direction s)) * PART_SIZE
        \<and> sint (rtop (parts s' ! 0)) =
            sint (rtop (parts s ! 0)) + snd (Direction_value (direction s)) * PART_SIZE)"
proof -
  let ?n = "length (parts s) - 1"
  let ?dx = "fst (Direction_value (direction s)) * sint (rwidth (parts s ! 0))"
  let ?dy = "snd (Direction_value (direction s)) * sint (rheight (parts s ! 0))"
  let ?h = "move_ip (parts s ! 0) ?dx ?dy"
  let ?s' = "s\<lparr>parts := ?h # tl (move_loop (parts s) ?n)\<rparr>"
  have n: "?n < length (parts s)" using assms by (cases "parts s") auto
  have m: "move s = Inr ?s'" using move_Inr [OF assms] .
  have len: "length (parts ?s') = length (parts s)"
    using n by (simp add: move_loop_length)
  have nth: "rpos (parts ?s' ! i) = rpos (parts s ! (i - 1))
         \<and> rwidth (parts ?s' ! i) = rwidth (parts s ! i)
         \<and> rheight (parts ?s' ! i) = rheight (parts s ! i)"
    if i: "1 \<le> i" "i < length (parts s)" for i
  proof -
    obtain j where j: "i = Suc j" using i by (cases i) auto
    have "parts ?s' ! i = tl (move_loop (parts s) ?n) ! j" using j by simp
    also have "\<dots> = move_loop (parts s) ?n ! i"
      using j i by (simp add: nth_tl move_loop_length)
    also have "\<dots> = (parts s ! i)\<lparr>rleft := rleft (parts s ! (i - 1)),
                                  rtop := rtop (parts s ! (i - 1))\<rparr>"
      using i n by (simp add: move_loop_nth)
    finally show ?thesis by (simp add: rpos_def)
  qed
  have hd: "parts ?s' ! 0 = ?h" by simp
  have hl: "rleft ?h = rleft (parts s ! 0) + word_of_int ?dx"
    and ht: "rtop ?h = rtop (parts s ! 0) + word_of_int ?dy"
    by (simp_all add: move_ip_def)
  have wl: "sint (rleft ?h) = c_wrap (sint (rleft (parts s ! 0)) + ?dx)"
    unfolding hl by (rule sint_add_of_int)
  have wt: "sint (rtop ?h) = c_wrap (sint (rtop (parts s ! 0)) + ?dy)"
    unfolding ht by (rule sint_add_of_int)
  have exact: "sint (rleft ?h) =
            sint (rleft (parts s ! 0)) + fst (Direction_value (direction s)) * PART_SIZE
        \<and> sint (rtop ?h) =
            sint (rtop (parts s ! 0)) + snd (Direction_value (direction s)) * PART_SIZE"
    if "sint (rwidth (parts s ! 0)) = PART_SIZE" "sint (rheight (parts s ! 0)) = PART_SIZE"
      "in_c_int (sint (rleft (parts s ! 0)) + fst (Direction_value (direction s)) * PART_SIZE)"
      "in_c_int (sint (rtop (parts s ! 0)) + snd (Direction_value (direction s)) * PART_SIZE)"
    using that wl wt by (simp add: c_wrap_in_range)
  show ?thesis
    apply (rule exI [of _ ?s'])
    using m len nth hd wl wt exact by simp
qed

theorem move_follows_leader_witness:
  "parts snake3 \<noteq> []
   \<and> move snake3 = Inr \<lparr>direction = LEFT,
        parts = [mk_Rect 375 300 15 15, mk_Rect 390 300 15 15, mk_Rect 405 300 15 15]\<rparr>
   \<and> sint (rwidth (parts snake3 ! 0)) = PART_SIZE
   \<and> sint (rheight (parts snake3 ! 0)) = PART_SIZE
   \<and> in_c_int (sint (rleft (parts snake3 ! 0)) + fst (Direction_value (direction snake3)) * PART_SIZE)
   \<and> in_c_int (sint (rtop (parts snake3 ! 0)) + snd (Direction_value (direction snake3)) * PART_SIZE)"
proof -
  have ne: "parts snake3 \<noteq> []" by (simp add: snake3_def)
  from move_follows_leader [OF ne] obtain s' where s': "move snake3 = Inr s'" by blast
  have m: "move snake3 = Inr \<lparr>direction = LEFT,
        parts = [mk_Rect 375 300 15 15, mk_Rect 390 300 15 15, mk_Rect 405 300 15 15]\<rparr>"
    by (simp add: move_def tail_def snake3_def mk_Rect_def move_ip_def numeral_2_eq_2)
  have r: "sint (rwidth (parts snake3 ! 0)) = PART_SIZE
     \<and> sint (rheight (parts snake3 ! 0)) = PART_SIZE
     \<and> in_c_int (sint (rleft (parts snake3 ! 0))
                  + fst (Direction_value (direction snake3)) * PART_SIZE)
     \<and> in_c_int (sint (rtop (parts snake3 ! 0))
                  + snd (Direction_value (direction snake3)) * PART_SIZE)"
    by (simp add: snake3_def mk_Rect_def PART_SIZE_def in_c_int_def)
  from ne m r show ?thesis by simp
qed

text \<open>
  The claim C8 fails at the border of the C integers: the snake that
  \<open>Snake_init\<close> builds at \<open>x = -2147483640\<close> heads left, and \<open>move\<close> puts its head at
  \<open>x = 2147483641\<close>, not at \<open>-2147483655\<close>.
\<close>

theorem move_wraps_around:
  "Snake_init (- 2147483640) 0 2 = Inr snake_edge
   \<and> direction snake_edge = LEFT
   \<and> move snake_edge = Inr snake_edge_moved
   \<and> sint (rleft (parts snake_edge ! 0)) = - 2147483640
   \<and> sint (rwidth (parts snake_edge ! 0)) = PART_SIZE
   \<and> sint (rleft (parts snake_edge_moved ! 0)) = 2147483641
   \<and> sint (rleft (parts snake_edge_moved ! 0))
       \<noteq> sint (rleft (parts snake_edge ! 0)) + fst (Direction_value LEFT) * PART_SIZE"
proof -
  have i: "Snake_init (- 2147483640) 0 2 = Inr snake_edge"
    by (simp add: Snake_init_def increase_def snake_edge_def mk_Rect_def PART_SIZE_def
          Let_def numeral_2_eq_2)
  have m: "move snake_edge = Inr snake_edge_moved"
    by (simp add: move_def tail_def snake_edge_def snake_edge_moved_def mk_Rect_def
          move_ip_def)
  show ?thesis
    using i m by (simp add: snake_edge_def snake_edge_moved_def mk_Rect_def PART_SIZE_def)
qed

subsection \<open>Evaluation on concrete sessions\<close>

lemmas eval_defs =
  move_forward_def move_backward_def move_snake_def move_def tail_def head_def
  has_collisions_def colliderect_def add_log_def deque_append_def snapshot_def
  increase_def generate_food_def randrange_def is_full_reversed_def
  reversed_of_def reversed_now_def in_c_int_def c_half_def
  handle_keypress_def press_keys_def turn_up_def turn_down_def turn_left_def turn_right_def
  mk_Rect_def move_ip_def rright_def rbottom_def rcenter_def
  PART_SIZE_def FOOD_SIZE_def LOG_LIMIT_def Let_def

lemma session1_two_ticks:
  "forward_ticks session1 [([], env1), ([], env1)] = Inr session1_at_wall"
  by (simp add: eval_defs session1_def session1_at_wall_def area1_def env1_def)

lemma session1_third_tick: "move_forward session1_at_wall env1 = Inr session1_over"
  by (simp add: eval_defs session1_over_def session1_at_wall_def area1_def env1_def)

subsection \<open>Construction\<close>

lemma increase_times_two:
  "increase_times 2 \<lparr>direction = d, parts = [p]\<rparr> =
     Inr \<lparr>direction = d,
          parts = [p, mk_Rect (rleft p) (rtop p) (word_of_int PART_SIZE) (word_of_int PART_SIZE),
                   mk_Rect (rleft p) (rtop p) (word_of_int PART_SIZE) (word_of_int PART_SIZE)]\<rparr>"
  by (simp add: numeral_2_eq_2 increase_def mk_Rect_def Let_def)

lemma Snake_init_start:
  "Snake_init x y (SNAKE_START_LENGTH - 1) =
     Inr \<lparr>direction = LEFT,
          parts = [mk_Rect x y (word_of_int PART_SIZE) (word_of_int PART_SIZE),
                   mk_Rect x y (word_of_int PART_SIZE) (word_of_int PART_SIZE),
                   mk_Rect x y (word_of_int PART_SIZE) (word_of_int PART_SIZE)]\<rparr>"
proof -
  have "SNAKE_START_LENGTH - 1 = 2" by (simp add: SNAKE_START_LENGTH_def)
  then show ?thesis
    by (simp add: Snake_init_def increase_times_two) (simp add: mk_Rect_def)
qed

lemma generate_food_sized:
  assumes "generate_food a p [] env = Inr (f, nexts)"
  shows "nexts = [] \<and> rwidth f = word_of_int FOOD_SIZE \<and> rheight f = word_of_int FOOD_SIZE"
  using assms
  by (auto simp: generate_food_def mk_Rect_def Let_def split: sum.splits if_splits prod.splits)

lemma init_fields:
  assumes "GameSession_init a ft p env = Inr g"
  shows "area g = a" "frame_time g = ft" "is_running g" "logs g = []"
    "is_reversed g = Flag False" "last_full_revert g = ticks1 env"
    "is_predictable_future g = p" "next_foods g = []"
    "length (parts (snake g)) = SNAKE_START_LENGTH"
    "rwidth (food g) = word_of_int FOOD_SIZE" "rheight (food g) = word_of_int FOOD_SIZE"
proof -
  from assms obtain sx sy sn f nexts where
    sn: "Snake_init sx sy (SNAKE_START_LENGTH - 1) = Inr sn" and
    f: "generate_food a p [] env = Inr (f, nexts)" and
    g: "g = \<lparr>area = a, frame_time = ft, is_running = True, logs = [],
             is_reversed = Flag False, last_full_revert = ticks1 env,
             is_predictable_future = p, next_foods = nexts, snake = sn, food = f\<rparr>"
    by (auto simp: GameSession_init_def split: sum.splits prod.splits if_splits)
  have "length (parts sn) = 3" using sn unfolding Snake_init_start by auto
  then have n: "length (parts sn) = SNAKE_START_LENGTH" by (simp add: SNAKE_START_LENGTH_def)
  show "area g = a" "frame_time g = ft" "is_running g" "logs g = []"
    "is_reversed g = Flag False" "last_full_revert g = ticks1 env"
    "is_predictable_future g = p" "next_foods g = []"
    "length (parts (snake g)) = SNAKE_START_LENGTH"
    "rwidth (food g) = word_of_int FOOD_SIZE" "rheight (food g) = word_of_int FOOD_SIZE"
    using g n generate_food_sized [OF f] by simp_all
qed

lemma half_bounds:
  fixes w :: int
  assumes "\<bar>w\<bar> \<le> 1073741824"
  shows "- 536870927 \<le> (w div 30) * 15" and "(w div 30) * 15 \<le> 536870912"
proof -
  have "30 * (w div 30) + w mod 30 = w" "0 \<le> w mod 30" "w mod 30 < 30"
    by simp_all
  then have a: "30 * (w div 30) \<le> w" and b: "w < 30 * (w div 30) + 30"
    by linarith+
  show "- 536870927 \<le> (w div 30) * 15" using assms b by linarith
  show "(w div 30) * 15 \<le> 536870912" using assms a by linarith
qed

lemma small_area_exact:
  assumes "small_area a"
  shows "float_exact (aleft a) (awidth a)" and "float_exact (atop a) (aheight a)"
proof -
  have l: "\<bar>aleft a\<bar> \<le> 1073741824" "\<bar>atop a\<bar> \<le> 1073741824"
    and w: "\<bar>awidth a\<bar> \<le> 1073741824" "\<bar>aheight a\<bar> \<le> 1073741824"
    using assms by (simp_all add: small_area_def)
  have half: "2 * PART_SIZE = 30" "PART_SIZE = 15" by (simp_all add: PART_SIZE_def)
  show "float_exact (aleft a) (awidth a)"
    using l(1) w(1) half_bounds [OF w(1)]
    unfolding float_exact_def in_c_int_def half(1) unfolding half(2) by linarith
  show "float_exact (atop a) (aheight a)"
    using l(2) w(2) half_bounds [OF w(2)]
    unfolding float_exact_def in_c_int_def half(1) unfolding half(2) by linarith
qed

lemma drawn_in_c_int:
  fixes l w r :: int
  assumes "\<bar>l\<bar> \<le> 1073741824" and "\<bar>w\<bar> \<le> 1073741824" and "40 < w"
  shows "in_c_int (l + r mod (w - 40))"
proof -
  have "0 \<le> r mod (w - 40)" and "r mod (w - 40) < w - 40"
    using assms(3) by simp_all
  then show ?thesis using assms(1,2) unfolding in_c_int_def by linarith
qed

lemma generate_food_fresh:
  assumes "small_area a"
  shows "generate_food a p [] env =
     (if awidth a \<le> 40 \<or> aheight a \<le> 40 then Inl ValueError
      else Inr (mk_Rect (word_of_int (aleft a + rnd_left env mod (awidth a - 40)))
                        (word_of_int (atop a + rnd_top env mod (aheight a - 40)))
                        (word_of_int FOOD_SIZE) (word_of_int FOOD_SIZE), []))"
proof (cases "awidth a \<le> 40 \<or> aheight a \<le> 40")
  case True
  then show ?thesis by (auto simp: generate_food_def randrange_def FOOD_SIZE_def)
next
  case False
  have s: "\<bar>aleft a\<bar> \<le> 1073741824" "\<bar>atop a\<bar> \<le> 1073741824"
    "\<bar>awidth a\<bar> \<le> 1073741824" "\<bar>aheight a\<bar> \<le> 1073741824"
    using assms by (simp_all add: small_area_def)
  have "in_c_int (aleft a + rnd_left env mod (awidth a - 40))"
    "in_c_int (atop a + rnd_top env mod (aheight a - 40))"
    using False s by (simp_all add: drawn_in_c_int)
  then show ?thesis
    using False by (simp add: generate_food_def randrange_def FOOD_SIZE_def Let_def)
qed

lemma GameSession_init_eq:
  assumes "small_area a"
  shows "GameSession_init a ft p env =
     (if awidth a \<le> 40 \<or> aheight a \<le> 40 then Inl ValueError
      else if \<not> sounds_load env then Inl SoundError
      else Inr \<lparr>area = a, frame_time = ft, is_running = True, logs = [],
                is_reversed = Flag False, last_full_revert = ticks1 env,
                is_predictable_future = p, next_foods = [],
                snake = \<lparr>direction = LEFT,
                          parts = replicate 3
                            (mk_Rect (word_of_int (aleft a + (awidth a div 30) * 15))
                                     (word_of_int (atop a + (aheight a div 30) * 15))
                                     (word_of_int PART_SIZE) (word_of_int PART_SIZE))\<rparr>,
                food = mk_Rect (word_of_int (aleft a + rnd_left env mod (awidth a - 40)))
                               (word_of_int (atop a + rnd_top env mod (aheight a - 40)))
                               (word_of_int FOOD_SIZE) (word_of_int FOOD_SIZE)\<rparr>)"
proof -
  have half: "2 * PART_SIZE = 30" by (simp add: PART_SIZE_def)
  have st: "start_position a env =
      Inr (word_of_int (aleft a + (awidth a div 30) * PART_SIZE),
           word_of_int (atop a + (aheight a div 30) * PART_SIZE))"
    using small_area_exact [OF assms] by (simp add: start_position_def Let_def half)
  show ?thesis
    unfolding GameSession_init_def st Snake_init_start generate_food_fresh [OF assms]
    by (simp add: numeral_3_eq_3 PART_SIZE_def)
qed

lemma small_area1: "small_area area1"
  by (simp add: small_area_def area1_def)

lemma session1_init: "GameSession_init area1 40 False env1 = Inr session1"
  by (subst GameSession_init_eq [OF small_area1])
     (simp add: area1_def env1_def session1_def FOOD_SIZE_def PART_SIZE_def numeral_3_eq_3
        mk_Rect_def)

text \<open>
  C4 (amended). The constructor validates nothing. On an area whose left, top,
  width and height are at most \<open>2 ^ 30\<close> in absolute value it raises \<open>ValueError\<close>, from
  \<open>randrange\<close> in \<open>generate_food\<close>, exactly when the width or the height is at most
  \<open>2 * FOOD_SIZE = 40\<close>. With both above 40 it fails only when the sound files do not
  load, and otherwise returns a running session with an empty history that stores
  the frame time it was given, whatever its sign.
\<close>

theorem init_succeeds_iff:
  assumes "small_area a"
  shows "(awidth a \<le> 40 \<or> aheight a \<le> 40 \<longrightarrow> GameSession_init a ft p env = Inl ValueError)
   \<and> (40 < awidth a \<and> 40 < aheight a \<and> \<not> sounds_load env \<longrightarrow>
        GameSession_init a ft p env = Inl SoundError)
   \<and> (40 < awidth a \<and> 40 < aheight a \<and> sounds_load env \<longrightarrow>
        (\<exists>g. GameSession_init a ft p env = Inr g \<and> frame_time g = ft \<and> area g = a
           \<and> is_running g \<and> logs g = [] \<and> next_foods g = []
           \<and> length (parts (snake g)) = SNAKE_START_LENGTH))"
  by (simp add: GameSession_init_eq [OF assms] SNAKE_START_LENGTH_def)

theorem init_succeeds_iff_witness:
  "small_area area1 \<and> small_area (area1\<lparr>awidth := 0\<rparr>)
   \<and> 40 < awidth area1 \<and> 40 < aheight area1 \<and> sounds_load env1
   \<and> GameSession_init area1 40 False env1 = Inr session1
   \<and> \<not> sounds_load (env1\<lparr>sounds_load := False\<rparr>)
   \<and> GameSession_init area1 40 False (env1\<lparr>sounds_load := False\<rparr>) = Inl SoundError
   \<and> awidth (area1\<lparr>awidth := 0\<rparr>) \<le> 40
   \<and> GameSession_init (area1\<lparr>awidth := 0\<rparr>) 40 False env1 = Inl ValueError"
proof -
  have s0: "small_area (area1\<lparr>awidth := 0\<rparr>)" by (simp add: small_area_def area1_def)
  have a: "40 < awidth area1 \<and> 40 < aheight area1 \<and> sounds_load env1"
    by (simp add: area1_def env1_def)
  have b: "awidth (area1\<lparr>awidth := 0\<rparr>) \<le> 40" by simp
  show ?thesis
    using a b s0 small_area1 session1_init
      init_succeeds_iff [OF s0, of 40 False env1]
      init_succeeds_iff [OF small_area1, of 40 False "env1\<lparr>sounds_load := False\<rparr>"]
    by simp
qed

text \<open>
  The claim C4 fails: a frame time of zero or below is accepted, and an area of
  positive width and height 30 is refused.
\<close>

theorem init_accepts_bad_config:
  "GameSession_init area1 0 False env1 = Inr (session1\<lparr>frame_time := 0\<rparr>)
   \<and> GameSession_init area1 (- 40) False env1 = Inr (session1\<lparr>frame_time := - 40\<rparr>)
   \<and> GameSession_init \<lparr>aleft = 0, atop = 0, awidth = 30, aheight = 30\<rparr> 40 False env1
       = Inl ValueError"
proof -
  have s: "small_area \<lparr>aleft = 0, atop = 0, awidth = 30, aheight = 30\<rparr>"
    by (simp add: small_area_def)
  show ?thesis
    by (subst GameSession_init_eq [OF small_area1], subst GameSession_init_eq [OF small_area1],
        subst GameSession_init_eq [OF s])
       (simp add: area1_def env1_def session1_def FOOD_SIZE_def PART_SIZE_def numeral_3_eq_3
          mk_Rect_def)
qed

subsection \<open>The cooldown after construction\<close>

lemma handle_keypress_dir:
  "\<exists>d. handle_keypress g k = g\<lparr>snake := (snake g)\<lparr>direction := d\<rparr>\<rparr>"
proof
  show "handle_keypress g k
      = g\<lparr>snake := (snake g)\<lparr>direction := direction (snake (handle_keypress g k))\<rparr>\<rparr>"
    by (simp add: handle_keypress_def turn_up_def turn_down_def turn_left_def turn_right_def)
qed

lemma press_keys_dir:
  "\<exists>d. press_keys g ks = g\<lparr>snake := (snake g)\<lparr>direction := d\<rparr>\<rparr>"
proof (induction ks arbitrary: g)
  case Nil
  have "press_keys g [] = g\<lparr>snake := (snake g)\<lparr>direction := direction (snake g)\<rparr>\<rparr>"
    by (simp add: press_keys_def)
  then show ?case by blast
next
  case (Cons k ks)
  obtain d1 where d1: "handle_keypress g k = g\<lparr>snake := (snake g)\<lparr>direction := d1\<rparr>\<rparr>"
    using handle_keypress_dir by blast
  let ?g1 = "g\<lparr>snake := (snake g)\<lparr>direction := d1\<rparr>\<rparr>"
  obtain d2 where d2: "press_keys ?g1 ks = ?g1\<lparr>snake := (snake ?g1)\<lparr>direction := d2\<rparr>\<rparr>"
    using Cons.IH [of ?g1] by blast
  have "press_keys g (k # ks) = press_keys ?g1 ks"
    using d1 by (simp add: press_keys_def)
  also have "\<dots> = g\<lparr>snake := (snake g)\<lparr>direction := d2\<rparr>\<rparr>"
    using d2 by simp
  finally show ?case by blast
qed

lemma press_keys_fields:
  "area (press_keys g ks) = area g"
  "frame_time (press_keys g ks) = frame_time g"
  "is_running (press_keys g ks) = is_running g"
  "logs (press_keys g ks) = logs g"
  "is_reversed (press_keys g ks) = is_reversed g"
  "last_full_revert (press_keys g ks) = last_full_revert g"
  "is_predictable_future (press_keys g ks) = is_predictable_future g"
  "next_foods (press_keys g ks) = next_foods g"
  "food (press_keys g ks) = food g"
  "parts (snake (press_keys g ks)) = parts (snake g)"
proof -
  obtain d where d: "press_keys g ks = g\<lparr>snake := (snake g)\<lparr>direction := d\<rparr>\<rparr>"
    using press_keys_dir by blast
  show "area (press_keys g ks) = area g"
    "frame_time (press_keys g ks) = frame_time g"
    "is_running (press_keys g ks) = is_running g"
    "logs (press_keys g ks) = logs g"
    "is_reversed (press_keys g ks) = is_reversed g"
    "last_full_revert (press_keys g ks) = last_full_revert g"
    "is_predictable_future (press_keys g ks) = is_predictable_future g"
    "next_foods (press_keys g ks) = next_foods g"
    "food (press_keys g ks) = food g"
    "parts (snake (press_keys g ks)) = parts (snake g)"
    by (simp_all add: d)
qed

lemma move_forward_fields:
  assumes "move_forward g env = Inr g'"
  shows "area g' = area g" "frame_time g' = frame_time g"
    "is_reversed g' = is_reversed g" "last_full_revert g' = last_full_revert g"
    "is_predictable_future g' = is_predictable_future g"
  using assms
  by (auto simp: move_forward_def add_log_def Let_def
      split: sum.splits if_splits prod.splits)

lemma move_snake_blocked:
  assumes "ticks1 env - last_full_revert g \<le> int LOG_LIMIT * frame_time g"
  shows "move_snake g env = move_forward (g\<lparr>is_reversed := reversed_of g env\<rparr>) env"
proof -
  have "\<not> reversed_now (g\<lparr>is_reversed := reversed_of g env\<rparr>)"
    using assms by (simp add: reversed_now_def reversed_of_def is_full_reversed_def)
  then show ?thesis by (simp add: move_snake_def Let_def)
qed

lemma play_blocked:
  assumes "\<forall>(ks, e) \<in> set steps. ticks1 e - last_full_revert g \<le> int LOG_LIMIT * frame_time g"
  shows "play g steps = forward_play g steps"
  using assms
proof (induction steps arbitrary: g)
  case Nil
  show ?case by simp
next
  case (Cons st steps)
  obtain ks e where st: "st = (ks, e)" by (cases st)
  let ?g = "press_keys g ks"
  let ?g1 = "?g\<lparr>is_reversed := reversed_of ?g e\<rparr>"
  have w: "ticks1 e - last_full_revert ?g \<le> int LOG_LIMIT * frame_time ?g"
    using Cons.prems st by (simp add: press_keys_fields)
  have ms: "move_snake ?g e = move_forward ?g1 e"
    using move_snake_blocked [OF w] .
  show ?case
  proof (cases "move_forward ?g1 e")
    case (Inl err)
    then show ?thesis using ms st by simp
  next
    case (Inr g')
    have f: "last_full_revert g' = last_full_revert g" "frame_time g' = frame_time g"
      using move_forward_fields [OF Inr] by (simp_all add: press_keys_fields)
    have "play g' steps = forward_play g' steps"
      using Cons.prems f by (intro Cons.IH) auto
    then show ?thesis using ms st Inr by simp
  qed
qed

text \<open>
  C9. The session that the constructor returns has the clock value of the
  construction as \<open>last_full_revert\<close> and an empty history, so \<open>is_full_reversed\<close>
  holds at every time \<open>t\<close> with \<open>t - ticks1 env \<le> LOG_LIMIT * frame_time\<close>, and
  every \<open>move_snake\<close> at such a time takes the forward branch, whether or not the
  rewind key is held: a run of ticks within the window is a run of forward steps.
\<close>

theorem fresh_session_blocks_rewind:
  assumes "GameSession_init a ft p env = Inr g"
  shows "last_full_revert g = ticks1 env \<and> logs g = []
     \<and> (\<forall>t. t - ticks1 env \<le> int LOG_LIMIT * ft \<longrightarrow> is_full_reversed g t)
     \<and> ((\<forall>(ks, e) \<in> set steps. ticks1 e - ticks1 env \<le> int LOG_LIMIT * ft)
          \<longrightarrow> play g steps = forward_play g steps)"
proof -
  have g: "last_full_revert g = ticks1 env" "logs g = []" "frame_time g = ft"
    using init_fields [OF assms] by simp_all
  have "play g steps = forward_play g steps"
    if "\<forall>(ks, e) \<in> set steps. ticks1 e - ticks1 env \<le> int LOG_LIMIT * ft"
    using that g by (intro play_blocked) auto
  then show ?thesis using g by (simp add: is_full_reversed_def)
qed

theorem fresh_session_blocks_rewind_witness:
  "GameSession_init area1 40 False env1 = Inr session1
   \<and> pressed_r env_rewind
   \<and> ticks1 env_rewind - ticks1 env1 \<le> int LOG_LIMIT * 40
   \<and> is_full_reversed session1 1000
   \<and> play session1 [([], env_rewind)] = Inr (session1_tick1\<lparr>is_reversed := TheLogs\<rparr>)
   \<and> play session1 [([], env_rewind), ([], env_rewind)] = Inr session1_at_wall"
proof -
  have w: "\<forall>(ks, e) \<in> set [([], env_rewind), ([], env_rewind)].
             ticks1 e - ticks1 env1 \<le> int LOG_LIMIT * 40"
    "\<forall>(ks, e) \<in> set [([], env_rewind)]. ticks1 e - ticks1 env1 \<le> int LOG_LIMIT * 40"
    by (simp_all add: env1_def env_rewind_def LOG_LIMIT_def)
  have f1: "forward_play session1 [([], env_rewind)]
              = Inr (session1_tick1\<lparr>is_reversed := TheLogs\<rparr>)"
    by (simp add: eval_defs session1_def session1_tick1_def area1_def env_rewind_def)
  have f2: "forward_play session1 [([], env_rewind), ([], env_rewind)] = Inr session1_at_wall"
    by (simp add: eval_defs session1_def session1_at_wall_def area1_def env_rewind_def)
  have p: "pressed_r env_rewind \<and> ticks1 env_rewind - ticks1 env1 \<le> int LOG_LIMIT * 40"
    by (simp add: env1_def env_rewind_def LOG_LIMIT_def)
  note th1 = fresh_session_blocks_rewind [OF session1_init, of "[([], env_rewind)]"]
  note th2 = fresh_session_blocks_rewind [OF session1_init,
      of "[([], env_rewind), ([], env_rewind)]"]
  have t: "is_full_reversed session1 1000"
    using th1 p by (simp add: env_rewind_def)
  have p1: "play session1 [([], env_rewind)] = forward_play session1 [([], env_rewind)]"
    using th1 w(2) by blast
  have p2: "play session1 [([], env_rewind), ([], env_rewind)]
          = forward_play session1 [([], env_rewind), ([], env_rewind)]"
    using th2 w(1) by blast
  from f1 f2 t p p1 p2 session1_init show ?thesis by simp
qed

subsection \<open>The forward step on a collision\<close>

text \<open>
  C2 (amended). When the moved snake collides, \<open>move_forward\<close> sets \<open>is_running\<close> to
  false and neither tests the food nor grows the snake nor draws a new food: the
  session keeps its food and its deferred foods and the snake keeps its length. The
  snapshot of the resulting state is still appended to the history.
\<close>

theorem collision_tick:
  assumes "move (snake g) = Inr sn" and "has_collisions sn (area g) = Inr True"
  shows "move_forward g env =
           Inr (g\<lparr>snake := sn, is_running := False,
                  logs := deque_append (logs g) (snapshot (g\<lparr>snake := sn\<rparr>))\<rparr>)
     \<and> length (parts sn) = length (parts (snake g))"
proof -
  have ne: "parts (snake g) \<noteq> []"
    using assms(1) move_Nil [of "snake g"] by auto
  have len: "length (parts sn) = length (parts (snake g))"
    using assms(1) move_Inr [OF ne] ne by (auto simp: move_loop_length)
  have "move_forward g env =
           Inr (g\<lparr>snake := sn, is_running := False,
                  logs := deque_append (logs g) (snapshot (g\<lparr>snake := sn\<rparr>))\<rparr>)"
    using assms by (simp add: move_forward_def add_log_def snapshot_def)
  with len show ?thesis by simp
qed

theorem collision_tick_witness:
  "move (snake session1_at_wall) = Inr (snake session1_over)
   \<and> has_collisions (snake session1_over) (area session1_at_wall) = Inr True
   \<and> move_forward session1_at_wall env1 = Inr session1_over"
proof -
  have m: "move (snake session1_at_wall) = Inr (snake session1_over)"
    by (simp add: eval_defs session1_over_def session1_at_wall_def)
  have c: "has_collisions (snake session1_over) (area session1_at_wall) = Inr True"
    by (simp add: eval_defs session1_over_def session1_at_wall_def area1_def)
  have "move_forward session1_at_wall env1 = Inr session1_over"
    using collision_tick [OF m c, of env1]
    by (simp add: eval_defs session1_over_def session1_at_wall_def)
  with m c show ?thesis by simp
qed

text \<open>
  The claim C2 fails: the third tick of \<open>session1\<close> runs into the left border, ends
  the game, and the history grows from two snapshots to three, the last one being
  the snapshot of the collided state.
\<close>

theorem collision_tick_appends_snapshot:
  "forward_ticks session1 [([], env1), ([], env1)] = Inr session1_at_wall
   \<and> is_running session1_at_wall
   \<and> move_forward session1_at_wall env1 = Inr session1_over
   \<and> has_collisions (snake session1_over) (area session1_over) = Inr True
   \<and> \<not> is_running session1_over
   \<and> length (logs session1_at_wall) = 2
   \<and> length (logs session1_over) = 3
   \<and> last (logs session1_over) = snapshot session1_over"
  using session1_two_ticks session1_third_tick
  by (simp add: eval_defs session1_over_def session1_at_wall_def area1_def)

subsection \<open>Rewinding a run of forward ticks\<close>

lemma deque_append_cases:
  "deque_append xs x = (if LOG_LIMIT \<le> length xs then tl xs @ [x] else xs @ [x])"
  by (cases xs) (auto simp: deque_append_def Let_def LOG_LIMIT_def)

lemma move_forward_logs:
  assumes "move_forward g env = Inr g'"
  shows "logs g' = deque_append (logs g) (snapshot g')"
  using assms
  by (auto simp: move_forward_def add_log_def snapshot_def Let_def
      split: sum.splits if_splits prod.splits)

lemma forward_ticks_logs:
  assumes "forward_ticks g steps = Inr g'"
    and "logs g = old @ new"
    and "length new + length steps \<le> LOG_LIMIT"
  shows "\<exists>old' ss. logs g' = old' @ new @ ss \<and> length ss = length steps"
  using assms
proof (induction steps arbitrary: g old new)
  case Nil
  then show ?case by simp
next
  case (Cons st steps)
  obtain ks env where st: "st = (ks, env)" by (cases st)
  from Cons.prems(1) st obtain g1 where
    g1: "move_forward (press_keys g ks) env = Inr g1" and
    rest: "forward_ticks g1 steps = Inr g'"
    by (auto split: sum.splits)
  have l1: "logs g1 = deque_append (old @ new) (snapshot g1)"
    using move_forward_logs [OF g1] Cons.prems(2) by (simp add: press_keys_fields)
  have short: "length new < LOG_LIMIT" using Cons.prems(3) by simp
  have "\<exists>old1. logs g1 = old1 @ (new @ [snapshot g1])"
  proof (cases "LOG_LIMIT \<le> length (old @ new)")
    case True
    then have "old \<noteq> []" using short by auto
    then have "tl (old @ new) = tl old @ new" by simp
    then show ?thesis using l1 True by (simp add: deque_append_cases)
  next
    case False
    then show ?thesis using l1 by (simp add: deque_append_cases)
  qed
  then obtain old1 where old1: "logs g1 = old1 @ (new @ [snapshot g1])" by blast
  have "length (new @ [snapshot g1]) + length steps \<le> LOG_LIMIT"
    using Cons.prems(3) by simp
  from Cons.IH [OF rest old1 this]
  obtain old' ss where "logs g' = old' @ (new @ [snapshot g1]) @ ss" "length ss = length steps"
    by blast
  then have "logs g' = old' @ new @ (snapshot g1 # ss) \<and> length (snapshot g1 # ss) = length (st # steps)"
    by simp
  then show ?case by blast
qed

lemma move_backward_pop:
  assumes "logs g = xs @ [l]"
  shows "\<exists>g'. move_backward g now = Inr g'
     \<and> logs g' = xs
     \<and> direction (snake g') = snake_direction l
     \<and> parts (snake g') = map (\<lambda>(x, y). mk_Rect x y (word_of_int PART_SIZE) (word_of_int PART_SIZE)) (snake_parts l)
     \<and> food g' = mk_Rect (fst (log_food l)) (snd (log_food l)) (word_of_int FOOD_SIZE) (word_of_int FOOD_SIZE)
     \<and> is_running g' = is_running g \<and> area g' = area g \<and> frame_time g' = frame_time g
     \<and> is_predictable_future g' = is_predictable_future g"
  using assms by (simp add: move_backward_def Let_def)

lemma backward_ticks_pop:
  assumes "logs g = pre @ [l] @ ss" and "length ts = Suc (length ss)"
  shows "\<exists>g'. backward_ticks g ts = Inr g'
     \<and> logs g' = pre
     \<and> direction (snake g') = snake_direction l
     \<and> parts (snake g') = map (\<lambda>(x, y). mk_Rect x y (word_of_int PART_SIZE) (word_of_int PART_SIZE)) (snake_parts l)
     \<and> food g' = mk_Rect (fst (log_food l)) (snd (log_food l)) (word_of_int FOOD_SIZE) (word_of_int FOOD_SIZE)"
  using assms
proof (induction ss arbitrary: g ts rule: rev_induct)
  case Nil
  then obtain t where ts: "ts = [t]" by (cases ts) auto
  have "logs g = pre @ [l]" using Nil.prems(1) by simp
  from move_backward_pop [OF this, of t] show ?case using ts by auto
next
  case (snoc x ss)
  then obtain t ts' where ts: "ts = t # ts'" "length ts' = Suc (length ss)"
    by (cases ts) auto
  have "logs g = (pre @ [l] @ ss) @ [x]" using snoc.prems(1) by simp
  from move_backward_pop [OF this, of t]
  obtain g1 where g1: "move_backward g t = Inr g1" "logs g1 = pre @ [l] @ ss" by blast
  from snoc.IH [OF g1(2) ts(2)] show ?case using g1(1) ts(1) by simp
qed

lemma rpos_snapshot_parts:
  "map rpos (map (\<lambda>(x, y). mk_Rect x y w h) (snake_parts (snapshot g)))
     = map rpos (parts (snake g))"
  by (simp add: snapshot_def rpos_def mk_Rect_def comp_def)

text \<open>
  C1 (amended). Every forward tick records the state it has produced. After a run of
  \<open>N\<close> forward ticks, \<open>1 \<le> N \<le> LOG_LIMIT\<close>, with any key presses in between and
  whether or not food is eaten, \<open>N\<close> backward ticks succeed and leave direction,
  segment positions and food position as they were right after the first tick of the
  run, and the history \<open>N\<close> entries shorter than before the rewind.
\<close>

theorem rewind_restores_first_snapshot:
  assumes "move_forward (press_keys g ks) env = Inr g1"
    and "forward_ticks g1 rest = Inr g'"
    and "Suc (length rest) \<le> LOG_LIMIT"
    and "length ts = Suc (length rest)"
  shows "\<exists>g''. backward_ticks g' ts = Inr g''
     \<and> direction (snake g'') = direction (snake g1)
     \<and> map rpos (parts (snake g'')) = map rpos (parts (snake g1))
     \<and> rpos (food g'') = rpos (food g1)
     \<and> length (logs g'') + length ts = length (logs g')"
proof -
  have l1: "logs g1 = deque_append (logs (press_keys g ks)) (snapshot g1)"
    using move_forward_logs [OF assms(1)] .
  then obtain old1 where old1: "logs g1 = old1 @ [snapshot g1]"
    by (auto simp: deque_append_cases split: if_splits)
  have "length [snapshot g1] + length rest \<le> LOG_LIMIT" using assms(3) by simp
  from forward_ticks_logs [OF assms(2) old1 this]
  obtain old' ss where l': "logs g' = old' @ [snapshot g1] @ ss" "length ss = length rest"
    by blast
  have "length ts = Suc (length ss)" using assms(4) l'(2) by simp
  from backward_ticks_pop [OF l'(1) this]
  obtain g'' where g'': "backward_ticks g' ts = Inr g''" "logs g'' = old'"
    "direction (snake g'') = snake_direction (snapshot g1)"
    "parts (snake g'') = map (\<lambda>(x, y). mk_Rect x y (word_of_int PART_SIZE) (word_of_int PART_SIZE)) (snake_parts (snapshot g1))"
    "food g'' = mk_Rect (fst (log_food (snapshot g1))) (snd (log_food (snapshot g1))) (word_of_int FOOD_SIZE) (word_of_int FOOD_SIZE)"
    by blast
  have d: "direction (snake g'') = direction (snake g1)"
    using g''(3) by (simp add: snapshot_def)
  have p: "map rpos (parts (snake g'')) = map rpos (parts (snake g1))"
    using g''(4) rpos_snapshot_parts [of "word_of_int PART_SIZE" "word_of_int PART_SIZE" g1] by simp
  have f: "rpos (food g'') = rpos (food g1)"
    using g''(5) by (simp add: snapshot_def rpos_def mk_Rect_def)
  have n: "length (logs g'') + length ts = length (logs g')"
    using g''(2) l' assms(4) by simp
  show ?thesis using g''(1) d p f n by blast
qed

theorem rewind_restores_first_snapshot_witness:
  "move_forward (press_keys session1 []) env1 = Inr session1_tick1
   \<and> forward_ticks session1_tick1 [([], env1)] = Inr session1_at_wall
   \<and> Suc (length [([] :: int list, env1)]) \<le> LOG_LIMIT
   \<and> backward_ticks session1_at_wall [5000, 5040] = Inr session1_back
   \<and> map rpos (parts (snake session1_back)) = map rpos (parts (snake session1_tick1))
   \<and> direction (snake session1_back) = direction (snake session1_tick1)
   \<and> rpos (food session1_back) = rpos (food session1_tick1)"
proof -
  have a: "move_forward (press_keys session1 []) env1 = Inr session1_tick1"
    by (simp add: eval_defs session1_def session1_tick1_def area1_def env1_def)
  have b: "forward_ticks session1_tick1 [([], env1)] = Inr session1_at_wall"
    by (simp add: eval_defs session1_def session1_tick1_def session1_at_wall_def
          area1_def env1_def)
  have c: "Suc (length [([] :: int list, env1)]) \<le> LOG_LIMIT" by (simp add: LOG_LIMIT_def)
  have d: "length [5000, 5040 :: int] = Suc (length [([] :: int list, env1)])" by simp
  have e: "backward_ticks session1_at_wall [5000, 5040] = Inr session1_back"
    by (simp add: eval_defs session1_def session1_tick1_def session1_at_wall_def
          session1_back_def)
  from rewind_restores_first_snapshot [OF a b c d] e
  have "direction (snake session1_back) = direction (snake session1_tick1)
     \<and> map rpos (parts (snake session1_back)) = map rpos (parts (snake session1_tick1))
     \<and> rpos (food session1_back) = rpos (food session1_tick1)"
    by auto
  with a b c e show ?thesis by simp
qed

text \<open>
  The claim C1 fails: one forward tick of the fresh \<open>session0\<close>, which eats nothing,
  followed by one backward tick leaves the head at 375, where the tick has put it,
  and not at 390, where it was before the tick.
\<close>

lemma small_area0: "small_area area0"
  by (simp add: small_area_def area0_def)

lemma session0_init: "GameSession_init area0 40 True env0 = Inr session0"
  by (subst GameSession_init_eq [OF small_area0])
     (simp add: area0_def env0_def session0_def FOOD_SIZE_def PART_SIZE_def numeral_3_eq_3)

lemma session0_first_tick: "move_forward session0 env0 = Inr session0_tick1"
  by (simp add: eval_defs session0_def session0_tick1_def area0_def env0_def)

lemma session0_first_back: "move_backward session0_tick1 5000 = Inr session0_back"
  by (simp add: eval_defs session0_def session0_tick1_def session0_back_def)

theorem rewind_keeps_moved_position:
  "GameSession_init area0 40 True env0 = Inr session0
   \<and> move_forward session0 env0 = Inr session0_tick1
   \<and> length (parts (snake session0_tick1)) = length (parts (snake session0))
   \<and> food session0_tick1 = food session0
   \<and> move_backward session0_tick1 5000 = Inr session0_back
   \<and> map rpos (parts (snake session0)) = [(390, 300), (390, 300), (390, 300)]
   \<and> map rpos (parts (snake session0_back)) = [(375, 300), (390, 300), (390, 300)]
   \<and> map rpos (parts (snake session0_back)) \<noteq> map rpos (parts (snake session0))
   \<and> length (logs session0_back) = length (logs session0_tick1) - 1"
  using session0_init session0_first_tick session0_first_back
  by (simp add: session0_def session0_tick1_def session0_back_def rpos_def mk_Rect_def)

subsection \<open>The number of segments\<close>















subsection \<open>After the game is over\<close>

lemma handle_events_dir:
  assumes "handle_events g evs = Looping g'"
  shows "\<exists>d. g' = g\<lparr>snake := (snake g)\<lparr>direction := d\<rparr>\<rparr>"
  using assms
proof (induction g evs rule: handle_events.induct)
  case (1 g)
  then have "g' = g\<lparr>snake := (snake g)\<lparr>direction := direction (snake g)\<rparr>\<rparr>" by simp
  then show ?case by blast
next
  case (2 g evs)
  then show ?case by simp
next
  case (3 g k evs)
  then have nr: "\<not> (k = K_RETURN \<and> \<not> is_running g)"
    and l: "handle_events (handle_keypress g k) evs = Looping g'"
    by (auto split: if_splits)
  obtain d1 where d1: "handle_keypress g k = g\<lparr>snake := (snake g)\<lparr>direction := d1\<rparr>\<rparr>"
    using handle_keypress_dir by blast
  from "3.IH" [OF nr l] obtain d where
    "g' = (handle_keypress g k)\<lparr>snake := (snake (handle_keypress g k))\<lparr>direction := d\<rparr>\<rparr>"
    by blast
  then have "g' = g\<lparr>snake := (snake g)\<lparr>direction := d\<rparr>\<rparr>" by (simp add: d1)
  then show ?case by blast
next
  case (4 g evs)
  then show ?case by simp
qed

lemma run_frame_over:
  assumes "\<not> is_running g" and "run_frame g fr = Looping g'"
  shows "\<exists>d. g' = g\<lparr>snake := (snake g)\<lparr>direction := d\<rparr>\<rparr>"
proof -
  from assms(2) obtain g1 where g1: "handle_events g (fst fr) = Looping g1"
    by (auto simp: run_frame_def split: run_state.splits)
  from handle_events_dir [OF g1] obtain d where d: "g1 = g\<lparr>snake := (snake g)\<lparr>direction := d\<rparr>\<rparr>"
    by blast
  then have "\<not> is_running g1" using assms(1) by simp
  then have "g' = g1" using assms(2) g1 by (simp add: run_frame_def)
  with d show ?thesis by blast
qed

lemma run_frames_over:
  assumes "\<not> is_running g" and "run_frames g frs = Looping g'"
  shows "\<exists>d. g' = g\<lparr>snake := (snake g)\<lparr>direction := d\<rparr>\<rparr>"
  using assms
proof (induction frs arbitrary: g)
  case Nil
  then have "g' = g\<lparr>snake := (snake g)\<lparr>direction := direction (snake g)\<rparr>\<rparr>" by simp
  then show ?case by blast
next
  case (Cons fr frs)
  from Cons.prems(2) obtain g1 where g1: "run_frame g fr = Looping g1"
    and rest: "run_frames g1 frs = Looping g'"
    by (auto split: run_state.splits)
  from run_frame_over [OF Cons.prems(1) g1]
  obtain d1 where d1: "g1 = g\<lparr>snake := (snake g)\<lparr>direction := d1\<rparr>\<rparr>" by blast
  then have "\<not> is_running g1" using Cons.prems(1) by simp
  from Cons.IH [OF this rest] obtain d where "g' = g1\<lparr>snake := (snake g1)\<lparr>direction := d\<rparr>\<rparr>"
    by blast
  then have "g' = g\<lparr>snake := (snake g)\<lparr>direction := d\<rparr>\<rparr>" by (simp add: d1)
  then show ?case by blast
qed

text \<open>
  C5 (amended). Key presses and backward steps never change \<open>is_running\<close>. In the
  loop of \<open>Game.run\<close>, which ticks the session only while it is running, a session
  that is over stays over in every later frame, and nothing of it changes but the
  direction of the snake. The session itself has no such guard: a forward step
  computes \<open>is_running\<close> anew from the collision test.
\<close>

theorem game_over_terminal_in_loop:
  "is_running (handle_keypress g key) = is_running g
   \<and> (\<forall>g'. move_backward g now = Inr g' \<longrightarrow> is_running g' = is_running g)
   \<and> (\<not> is_running g \<longrightarrow>
        (\<forall>g'. run_frames g frs = Looping g' \<longrightarrow>
           \<not> is_running g'
           \<and> g' = g\<lparr>snake := (snake g)\<lparr>direction := direction (snake g')\<rparr>\<rparr>))"
proof -
  obtain d where d: "handle_keypress g key = g\<lparr>snake := (snake g)\<lparr>direction := d\<rparr>\<rparr>"
    using handle_keypress_dir by blast
  have a: "is_running (handle_keypress g key) = is_running g" by (simp add: d)
  have b: "is_running g' = is_running g" if "move_backward g now = Inr g'" for g'
    using that by (auto simp: move_backward_def Let_def split: if_splits)
  have c: "\<not> is_running g'
           \<and> g' = g\<lparr>snake := (snake g)\<lparr>direction := direction (snake g')\<rparr>\<rparr>"
    if "\<not> is_running g" "run_frames g frs = Looping g'" for g'
  proof -
    from run_frames_over [OF that] obtain d' where
      d': "g' = g\<lparr>snake := (snake g)\<lparr>direction := d'\<rparr>\<rparr>" by blast
    have "direction (snake g') = d'" by (simp add: d')
    then show ?thesis using d' that(1) by simp
  qed
  show ?thesis using a b c by blast
qed

theorem game_over_terminal_in_loop_witness:
  "\<not> is_running session1_over
   \<and> run_frames session1_over [([KEYDOWN K_DOWN], env_rewind), ([OTHER, KEYDOWN K_RIGHT], env1)]
       = Looping (session1_over\<lparr>snake := (snake session1_over)\<lparr>direction := RIGHT\<rparr>\<rparr>)
   \<and> \<not> is_running (session1_over\<lparr>snake := (snake session1_over)\<lparr>direction := RIGHT\<rparr>\<rparr>)"
proof -
  have n: "\<not> is_running session1_over" by (simp add: session1_over_def)
  have r: "run_frames session1_over
             [([KEYDOWN K_DOWN], env_rewind), ([OTHER, KEYDOWN K_RIGHT], env1)]
       = Looping (session1_over\<lparr>snake := (snake session1_over)\<lparr>direction := RIGHT\<rparr>\<rparr>)"
    by (simp add: run_frame_def handle_keypress_def turn_down_def turn_right_def
          K_UP_def K_DOWN_def K_LEFT_def K_RIGHT_def K_RETURN_def session1_over_def)
  from game_over_terminal_in_loop [of session1_over _ _
      "[([KEYDOWN K_DOWN], env_rewind), ([OTHER, KEYDOWN K_RIGHT], env1)]"] n r
  have "\<not> is_running (session1_over\<lparr>snake := (snake session1_over)\<lparr>direction := RIGHT\<rparr>\<rparr>)"
    by blast
  with n r show ?thesis by simp
qed

text \<open>
  The claim C5 fails for ticks of the session: from the session that has run into
  the left border, a turn down, a tick, a turn right and a tick bring the head back
  into the area, and \<open>is_running\<close> is true again.
\<close>

theorem forward_tick_revives_session:
  "move_forward session1_at_wall env1 = Inr session1_over
   \<and> \<not> is_running session1_over
   \<and> play session1_over [([K_DOWN], env1), ([K_RIGHT], env1)] = Inr session1_revived
   \<and> is_running session1_revived"
proof -
  have "play session1_over [([K_DOWN], env1), ([K_RIGHT], env1)] = Inr session1_revived"
    by (simp add: eval_defs K_UP_def K_DOWN_def K_LEFT_def K_RIGHT_def session1_over_def
          session1_revived_def area1_def env1_def)
  then show ?thesis
    using session1_third_tick by (simp add: session1_over_def session1_revived_def)
qed

subsection \<open>Replaying foods in predictable mode\<close>





















end
